theory Spec2Isabelle
  imports Main "HOL-Library.Multiset"
begin

section \<open>Data model\<close>

text \<open>
  The Python exceptions that the analysed functions can raise. A function that can raise
  returns \<open>py_error + 'a\<close>, with \<open>Inl\<close> for the exception.
\<close>

datatype py_error = IndexError | KeyError | TypeError | ValueError

text \<open>
  A move of the chess library, identified by its coordinate notation (\<open>Move.from_uci('g1f3')\<close>
  in the docstring of \<open>sortMovesAndFrequencies\<close>); \<open>str(move)\<close> is that notation. An
  entry of the move list is a \<open>Move option\<close>: \<open>None\<close> is Python's \<open>None\<close>.
\<close>

datatype Move = from_uci (uci: string)

text \<open>
  Modelled from the spec: the class \<open>Board\<close> (module \<open>Board.py\<close>, imported by
  \<open>ChessDotCom.py\<close>, is not part of the sources). Of a board the analysed code reads the
  attributes \<open>white_player\<close> and \<open>time_control\<close> and calls \<open>containsFEN\<close> and
  \<open>getNextMove\<close>. Following the spec's \<open>Game\<close> and \<open>PositionIndex\<close>, a board holds the
  ply list and the notations of the positions visited, in ply order.
\<close>

record Board =
  white_player :: string
  time_control :: string
  position_index :: "string list"
  mainline :: "Move list"

text \<open>
  Modelled from the spec: \<open>Board.containsFEN\<close>, the spec's \<open>containsPosition\<close>: true iff
  the target equals any position of the index.
\<close>

definition containsFEN :: "Board \<Rightarrow> string \<Rightarrow> bool" where
  "containsFEN board FEN = (FEN \<in> set (position_index board))"

text \<open>
  Modelled from the spec: \<open>nextMoveAfter\<close>, the move played immediately after the first
  occurrence of the target in ply order; absent if the target never occurs or occurs only
  as the final position.
\<close>

fun nextMoveAfter :: "string list \<Rightarrow> Move list \<Rightarrow> string \<Rightarrow> Move option" where
  "nextMoveAfter [] plies target = None"
| "nextMoveAfter (pos # rest) plies target =
     (if pos = target then (case plies of [] \<Rightarrow> None | m # _ \<Rightarrow> Some m)
      else nextMoveAfter rest (tl plies) target)"

text \<open>
  Modelled from the spec: \<open>Board.getNextMove\<close>. The source calls \<open>game.getNextMove()\<close>
  on a board that \<open>containsFEN(FEN)\<close> has just searched; the model passes the target
  position explicitly.
\<close>

definition getNextMove :: "Board \<Rightarrow> string \<Rightarrow> Move option" where
  "getNextMove board FEN = nextMoveAfter (position_index board) (mainline board) FEN"

text \<open>Decoded JSON, as the fetch and cache layer hands it to the constructor.\<close>

datatype json =
    JNull
  | JBool bool
  | JInt int
  | JStr string
  | JList "json list"
  | JObj "(string \<times> json) list"

record Profile =
  username :: string
  info :: json
  stats :: json
  current_games_data :: "json list"
  games_data :: "json list"
  all_games :: "Board list"
  current_games :: "Board list"
  games :: "Board list"

section \<open>The constructor\<close>

text \<open>\<open>game['pgn']\<close> on a decoded JSON value.\<close>

fun subscript_pgn :: "json \<Rightarrow> py_error + json" where
  "subscript_pgn (JObj items) =
     (case map_of items ''pgn'' of None \<Rightarrow> Inl KeyError | Some v \<Rightarrow> Inr v)"
| "subscript_pgn _ = Inl TypeError"

text \<open>
  \<open>for game in data: boards.append(Board(game['pgn']))\<close>. The constructor of \<open>Board\<close>
  is a parameter \<open>mk\<close>: it is not part of the sources.
\<close>

fun append_boards ::
  "(json \<Rightarrow> py_error + Board) \<Rightarrow> json list \<Rightarrow> Board list \<Rightarrow> py_error + Board list" where
  "append_boards mk [] boards = Inr boards"
| "append_boards mk (game # rest) boards =
     (case subscript_pgn game of
        Inl e \<Rightarrow> Inl e
      | Inr pgn \<Rightarrow>
          (case mk pgn of
             Inl e \<Rightarrow> Inl e
           | Inr b \<Rightarrow> append_boards mk rest (boards @ [b])))"

text \<open>
  \<open>Profile.__init__\<close>, after the part that fetches or loads \<open>info\<close>, \<open>stats\<close>,
  \<open>current_games_data\<close> and \<open>games_data\<close> (parameters here). The second loop of the source
  iterates over \<open>self.current_games\<close>, which was assigned \<open>[]\<close> two lines before, so its
  body never runs.
\<close>

definition Profile_init ::
  "(json \<Rightarrow> py_error + Board) \<Rightarrow> string \<Rightarrow> json \<Rightarrow> json \<Rightarrow> json list \<Rightarrow> json list
     \<Rightarrow> py_error + Profile" where
  "Profile_init mk uname profile_data stats_data cur_data arch_data =
     (case append_boards mk arch_data [] of
        Inl e \<Rightarrow> Inl e
      | Inr archived \<Rightarrow>
          (case append_boards mk [] [] of
             Inl e \<Rightarrow> Inl e
           | Inr current \<Rightarrow>
               Inr \<lparr>username = uname, info = profile_data, stats = stats_data,
                    current_games_data = cur_data, games_data = arch_data,
                    all_games = archived, current_games = current, games = archived\<rparr>))"

section \<open>Filtering by time control\<close>

text \<open>
  \<open>str.lower\<close> on the ASCII range. Outside it Python maps no character to a letter of
  \<open>all\<close>, \<open>rapid\<close>, \<open>bullet\<close>, \<open>blitz\<close> or \<open>daily\<close>, so the comparisons below agree
  with Python on every string.
\<close>

definition lower_char :: "char \<Rightarrow> char" where
  "lower_char c =
     (let n = (of_char c :: nat) in if 65 \<le> n \<and> n \<le> 90 then char_of (n + 32) else c)"

definition lower :: "string \<Rightarrow> string" where
  "lower s = map lower_char s"

text \<open>\<open>for game in self.all_games: if keep(game): self.games.append(game)\<close>\<close>

fun append_matching :: "(Board \<Rightarrow> bool) \<Rightarrow> Board list \<Rightarrow> Board list \<Rightarrow> Board list" where
  "append_matching keep [] active = active"
| "append_matching keep (game # rest) active =
     append_matching keep rest (if keep game then active @ [game] else active)"

definition filterGameType :: "Profile \<Rightarrow> string \<Rightarrow> Profile" where
  "filterGameType self type =
     (if CHR ''0'' \<in> set type then
        self\<lparr>games := append_matching (\<lambda>game. time_control game = type) (all_games self) []\<rparr>
      else
        (let type = lower type in
         if type = ''all'' then self\<lparr>games := all_games self\<rparr>
         else if type = ''rapid'' then
           self\<lparr>games := append_matching
             (\<lambda>game. time_control game = ''600'' \<or> time_control game = ''900+10''
                      \<or> time_control game = ''1800'') (all_games self) []\<rparr>
         else if type = ''bullet'' then
           self\<lparr>games := append_matching
             (\<lambda>game. time_control game = ''60'' \<or> time_control game = ''60+1''
                      \<or> time_control game = ''120+0'') (all_games self) []\<rparr>
         else if type = ''blitz'' then
           self\<lparr>games := append_matching
             (\<lambda>game. time_control game = ''180'' \<or> time_control game = ''180+2''
                      \<or> time_control game = ''300'') (all_games self) []\<rparr>
         else if type = ''daily'' then
           self\<lparr>games := append_matching
             (\<lambda>game. time_control game = ''86400'') (all_games self) []\<rparr>
         else self\<lparr>games := []\<rparr>))"

section \<open>Sorting moves by frequency\<close>

text \<open>
  The body of the inner loop of \<open>sortMovesAndFrequencies\<close>:
  \<open>if frequencies[i] < frequencies[j]:\<close> swap the two frequencies, then the two moves.
  An index outside a list raises \<open>IndexError\<close>.
\<close>

definition swap_if_less ::
  "nat \<Rightarrow> nat \<Rightarrow> 'a list \<times> int list \<Rightarrow> py_error + 'a list \<times> int list" where
  "swap_if_less i j s =
     (case s of (moves, frequencies) \<Rightarrow>
        if i < length frequencies \<and> j < length frequencies then
          if frequencies ! i < frequencies ! j then
            if i < length moves \<and> j < length moves then
              Inr (moves[i := moves ! j, j := moves ! i],
                   frequencies[i := frequencies ! j, j := frequencies ! i])
            else Inl IndexError
          else Inr s
        else Inl IndexError)"

text \<open>\<open>for j in range(i+1, len(frequencies))\<close>, over the list of the values of \<open>j\<close>.\<close>

fun inner_loop ::
  "nat \<Rightarrow> nat list \<Rightarrow> 'a list \<times> int list \<Rightarrow> py_error + 'a list \<times> int list" where
  "inner_loop i [] s = Inr s"
| "inner_loop i (j # js) s =
     (case swap_if_less i j s of
        Inl e \<Rightarrow> Inl e
      | Inr s' \<Rightarrow> inner_loop i js s')"

text \<open>\<open>for i in range(len(frequencies))\<close>, over the list of the values of \<open>i\<close>.\<close>

fun outer_loop ::
  "nat list \<Rightarrow> 'a list \<times> int list \<Rightarrow> py_error + 'a list \<times> int list" where
  "outer_loop [] s = Inr s"
| "outer_loop (i # is) s =
     (case inner_loop i [i + 1 ..< length (snd s)] s of
        Inl e \<Rightarrow> Inl e
      | Inr s' \<Rightarrow> outer_loop is s')"

definition sortMovesAndFrequencies ::
  "'a list \<Rightarrow> int list \<Rightarrow> py_error + 'a list \<times> int list" where
  "sortMovesAndFrequencies moves frequencies =
     outer_loop [0 ..< length frequencies] (moves, frequencies)"

section \<open>Move frequencies after a position\<close>

definition findGamesWithFEN :: "Profile \<Rightarrow> string \<Rightarrow> Board list" where
  "findGamesWithFEN self FEN =
     append_matching (\<lambda>board. containsFEN board FEN) (games self) []"

definition findGamesWithFENandColor :: "Profile \<Rightarrow> string \<Rightarrow> bool \<Rightarrow> Board list" where
  "findGamesWithFENandColor self FEN white =
     append_matching
       (\<lambda>board. containsFEN board FEN
                \<and> ((white_player board = username self) = (white = True)))
       (games self) []"

text \<open>\<open>moves.index(x)\<close>: the first position of \<open>x\<close>, \<open>ValueError\<close> if there is none.\<close>

fun list_index :: "'a list \<Rightarrow> 'a \<Rightarrow> py_error + nat" where
  "list_index [] x = Inl ValueError"
| "list_index (y # ys) x =
     (if y = x then Inr 0
      else (case list_index ys x of Inl e \<Rightarrow> Inl e | Inr k \<Rightarrow> Inr (Suc k)))"

text \<open>
  The body of the loop of \<open>findMovesAfterFEN\<close> for a matching game, given the value
  \<open>next_move\<close> of \<open>game.getNextMove()\<close>. The source does not test that value: \<open>None\<close>
  is looked up and appended like a move.
\<close>

definition count_next_move ::
  "Move option \<Rightarrow> Move option list \<times> int list \<Rightarrow> py_error + Move option list \<times> int list" where
  "count_next_move next_move s =
     (case s of (moves, frequencies) \<Rightarrow>
        if next_move \<in> set moves then
          (case list_index moves next_move of
             Inl e \<Rightarrow> Inl e
           | Inr k \<Rightarrow>
               if k < length frequencies
               then Inr (moves, frequencies[k := frequencies ! k + 1])
               else Inl IndexError)
        else Inr (moves @ [next_move], frequencies @ [1]))"

text \<open>\<open>for game in games: if ((game.white_player == self.username) == (white == True)): ...\<close>\<close>

fun count_loop ::
  "Profile \<Rightarrow> string \<Rightarrow> bool \<Rightarrow> Board list \<Rightarrow> Move option list \<times> int list
     \<Rightarrow> py_error + Move option list \<times> int list" where
  "count_loop self FEN white [] s = Inr s"
| "count_loop self FEN white (game # rest) s =
     (if (white_player game = username self) = (white = True) then
        (case count_next_move (getNextMove game FEN) s of
           Inl e \<Rightarrow> Inl e
         | Inr s' \<Rightarrow> count_loop self FEN white rest s')
      else count_loop self FEN white rest s)"

definition findMovesAfterFEN ::
  "Profile \<Rightarrow> string \<Rightarrow> bool \<Rightarrow> py_error + Move option list \<times> int list" where
  "findMovesAfterFEN self FEN white =
     (case count_loop self FEN white (findGamesWithFEN self FEN) ([], []) of
        Inl e \<Rightarrow> Inl e
      | Inr (moves, frequencies) \<Rightarrow> sortMovesAndFrequencies moves frequencies)"

section \<open>The printable table and the most common move\<close>

text \<open>\<open>str\<close> of an integer, in decimal, and of an entry of the move list.\<close>

definition digit_char :: "nat \<Rightarrow> char" where
  "digit_char d = char_of (48 + d)"

fun str_nat :: "nat \<Rightarrow> string" where
  "str_nat n = (if n < 10 then [digit_char n] else str_nat (n div 10) @ [digit_char (n mod 10)])"

definition str_int :: "int \<Rightarrow> string" where
  "str_int k = (if k < 0 then CHR ''-'' # str_nat (nat (- k)) else str_nat (nat k))"

definition str_move :: "Move option \<Rightarrow> string" where
  "str_move m = (case m of None \<Rightarrow> ''None'' | Some mv \<Rightarrow> uci mv)"

text \<open>
  \<open>for i in range(len(moves)): s += (str(moves[i]) + ": " + str(frequencies[i])) + "\n"\<close>
\<close>

fun moveTable_loop ::
  "nat list \<Rightarrow> Move option list \<Rightarrow> int list \<Rightarrow> string \<Rightarrow> py_error + string" where
  "moveTable_loop [] moves frequencies s = Inr s"
| "moveTable_loop (i # rest) moves frequencies s =
     (if i < length moves \<and> i < length frequencies then
        moveTable_loop rest moves frequencies
          (s @ (str_move (moves ! i) @ '': '' @ str_int (frequencies ! i)) @ [CHR 0x0A])
      else Inl IndexError)"

definition moveTable :: "Profile \<Rightarrow> string \<Rightarrow> bool \<Rightarrow> py_error + string" where
  "moveTable self FEN white =
     (case findMovesAfterFEN self FEN white of
        Inl e \<Rightarrow> Inl e
      | Inr (moves, frequencies) \<Rightarrow>
          moveTable_loop [0 ..< length moves] moves frequencies [])"

text \<open>\<open>return moves[0]\<close>: \<open>IndexError\<close> on the empty list.\<close>

definition mostCommonMove :: "Profile \<Rightarrow> string \<Rightarrow> bool \<Rightarrow> py_error + Move option" where
  "mostCommonMove self FEN white =
     (case findMovesAfterFEN self FEN white of
        Inl e \<Rightarrow> Inl e
      | Inr (moves, _) \<Rightarrow>
          (case moves of [] \<Rightarrow> Inl IndexError | m # _ \<Rightarrow> Inr m))"

section \<open>A functional reading of the sort\<close>

text \<open>
  One pass of the inner loop over the entries after position \<open>i\<close>, on the list of
  (move, frequency) pairs: \<open>h\<close> is the entry at position \<open>i\<close>; an entry with a strictly
  greater frequency takes its place and \<open>h\<close> goes where that entry was. The result is the
  entry left at position \<open>i\<close> and the entries after it. \<open>exchange_sort\<close> repeats the pass
  for every position, as the outer loop does. Both are proved equal to the loops below
  (\<open>sortMovesAndFrequencies_zip\<close>).
\<close>

fun exchange_pass :: "'a \<times> int \<Rightarrow> ('a \<times> int) list \<Rightarrow> ('a \<times> int) \<times> ('a \<times> int) list" where
  "exchange_pass h [] = (h, [])"
| "exchange_pass h (y # ys) =
     (if snd h < snd y
      then (case exchange_pass y ys of (h', r) \<Rightarrow> (h', h # r))
      else (case exchange_pass h ys of (h', r) \<Rightarrow> (h', y # r)))"

function exchange_sort :: "('a \<times> int) list \<Rightarrow> ('a \<times> int) list" where
  "exchange_sort [] = []"
| "exchange_sort (x # xs) = fst (exchange_pass x xs) # exchange_sort (snd (exchange_pass x xs))"
  by pat_completeness auto
termination
proof (relation "measure length")
  show "wf (measure length)" by simp
next
  fix x :: "'a \<times> int" and xs
  have "length (snd (exchange_pass x xs)) = length xs"
  proof (induction xs arbitrary: x)
    case Nil
    show ?case by simp
  next
    case (Cons y ys)
    show ?case
      by (cases "exchange_pass x ys"; cases "exchange_pass y ys")
        (use Cons[of x] Cons[of y] in auto)
  qed
  then show "(snd (exchange_pass x xs), x # xs) \<in> measure length" by simp
qed

text \<open>The keys of a tally in the order in which they were first seen.\<close>

fun first_occurrences :: "'a list \<Rightarrow> 'a list" where
  "first_occurrences [] = []"
| "first_occurrences (k # ks) = k # filter (\<lambda>x. x \<noteq> k) (first_occurrences ks)"

text \<open>
  The moves that the loop of \<open>findMovesAfterFEN\<close> counts, in corpus order: the value of
  \<open>getNextMove\<close> for every game of the active list that contains the position and in
  which the player has the selected colour.
\<close>

definition next_moves :: "Profile \<Rightarrow> string \<Rightarrow> bool \<Rightarrow> Move option list" where
  "next_moves self FEN white =
     map (\<lambda>game. getNextMove game FEN)
       (filter (\<lambda>game. containsFEN game FEN \<and> ((white_player game = username self) = white))
          (games self))"

text \<open>
  The table that the counting loop builds from the list of counted moves: every distinct
  move once, in first-seen order, with the number of its occurrences.
\<close>

definition tally :: "'a list \<Rightarrow> ('a \<times> int) list" where
  "tally ks = map (\<lambda>k. (k, int (count_list ks k))) (first_occurrences ks)"

section \<open>Example data\<close>

text \<open>
  Games of one ply from the initial position, two games through the position after
  1. Nf3 d5 (one ends there), and a profile whose archived and active lists are a given
  list of games.
\<close>

definition start_fen :: string where
  "start_fen = ''rnbqkbnr/pppppppp/8/8/8/8/PPPPPPPP/RNBQKBNR w KQkq - 0 1''"

definition example_game :: "string \<Rightarrow> string \<Rightarrow> string \<Rightarrow> string \<Rightarrow> Board" where
  "example_game white tc mv fen_after =
     \<lparr>white_player = white, time_control = tc,
      position_index = [start_fen, fen_after], mainline = [from_uci mv]\<rparr>"

definition game_Nf3 :: Board where
  "game_Nf3 = example_game ''aronfrish'' ''600'' ''g1f3''
     ''rnbqkbnr/pppppppp/8/8/8/5N2/PPPPPPPP/RNBQKB1R b KQkq - 1 1''"

definition game_d4 :: Board where
  "game_d4 = example_game ''aronfrish'' ''180'' ''d2d4''
     ''rnbqkbnr/pppppppp/8/8/3P4/8/PPP1PPPP/RNBQKBNR b KQkq - 0 1''"

definition game_e4 :: Board where
  "game_e4 = example_game ''aronfrish'' ''60'' ''e2e4''
     ''rnbqkbnr/pppppppp/8/8/4P3/8/PPPP1PPP/RNBQKBNR b KQkq - 0 1''"

definition game_c4 :: Board where
  "game_c4 = example_game ''aronfrish'' ''45'' ''c2c4''
     ''rnbqkbnr/pppppppp/8/8/2P5/8/PP1PPPPP/RNBQKBNR b KQkq - 0 1''"




definition example_profile :: "Board list \<Rightarrow> Profile" where
  "example_profile gs =
     \<lparr>username = ''aronfrish'', info = JNull, stats = JNull,
      current_games_data = [], games_data = [],
      all_games = gs, current_games = [], games = gs\<rparr>"

text \<open>
  Games that reach the position after 1. e4 e5 and continue with a given third move.
\<close>

definition fen_e4_e5 :: string where
  "fen_e4_e5 = ''rnbqkbnr/pppp1ppp/8/4p3/4P3/8/PPPP1PPP/RNBQKBNR w KQkq - 0 2''"

definition open_game :: "string \<Rightarrow> string \<Rightarrow> Board" where
  "open_game mv fen_after =
     \<lparr>white_player = ''aronfrish'', time_control = ''600'',
      position_index =
        [start_fen, ''rnbqkbnr/pppppppp/8/8/4P3/8/PPPP1PPP/RNBQKBNR b KQkq - 0 1'',
         fen_e4_e5, fen_after],
      mainline = [from_uci ''e2e4'', from_uci ''e7e5'', from_uci mv]\<rparr>"

definition open_game_Nf3 :: Board where
  "open_game_Nf3 = open_game ''g1f3''
     ''rnbqkbnr/pppp1ppp/8/4p3/4P3/5N2/PPPP1PPP/RNBQKB1R b KQkq - 1 2''"

definition open_game_Qh5 :: Board where
  "open_game_Qh5 = open_game ''d1h5''
     ''rnbqkbnr/pppp1ppp/8/4p2Q/4P3/8/PPPP1PPP/RNB1KBNR b KQkq - 1 2''"

definition open_game_d4 :: Board where
  "open_game_d4 = open_game ''d2d4''
     ''rnbqkbnr/pppp1ppp/8/4p3/3PP3/8/PPP2PPP/RNBQKBNR b KQkq - 0 2''"

declare str_nat.simps [simp del]

lemmas example_defs = start_fen_def example_game_def game_Nf3_def game_d4_def game_e4_def
  game_c4_def example_profile_def


section \<open>The sort loops compute the exchange sort\<close>

lemma append_matching_filter:
  "append_matching keep gs active = active @ filter keep gs"
  by (induction gs arbitrary: active) simp_all

lemma length_exchange_pass: "exchange_pass h xs = (h', r) \<Longrightarrow> length r = length xs"
  by (induction xs arbitrary: h h' r) (auto split: if_splits prod.splits)

lemma swap_if_less_zip:
  assumes "z = pre @ h # mid @ y # ys" "i = length pre" "j = Suc (length pre + length mid)"
  shows "swap_if_less i j (map fst z, map snd z) =
     Inr (if snd h < snd y
          then (map fst (pre @ y # mid @ h # ys), map snd (pre @ y # mid @ h # ys))
          else (map fst z, map snd z))"
  using assms
  by (simp add: swap_if_less_def nth_append list_update_append)

lemma inner_loop_pass:
  assumes "z = pre @ h # mid @ todo" "i = length pre" "j = Suc (length pre + length mid)"
    "n = length z"
  shows "inner_loop i [j ..< n] (map fst z, map snd z) =
     (case exchange_pass h todo of (h', r) \<Rightarrow>
        Inr (map fst (pre @ h' # mid @ r), map snd (pre @ h' # mid @ r)))"
  using assms
proof (induction todo arbitrary: h mid z j)
  case Nil
  then show ?case by simp
next
  case (Cons y ys)
  have jn: "j < n" using Cons.prems by simp
  have upt: "[j ..< n] = j # [Suc j ..< n]" using jn by (rule upt_conv_Cons)
  show ?case
  proof (cases "snd h < snd y")
    case True
    let ?z' = "pre @ y # (mid @ [h]) @ ys"
    have sw: "swap_if_less i j (map fst z, map snd z) = Inr (map fst ?z', map snd ?z')"
      using swap_if_less_zip[OF Cons.prems(1,2,3)] True by simp
    have "inner_loop i [Suc j ..< n] (map fst ?z', map snd ?z') =
       (case exchange_pass y ys of (h', r) \<Rightarrow>
        Inr (map fst (pre @ h' # (mid @ [h]) @ r), map snd (pre @ h' # (mid @ [h]) @ r)))"
      by (rule Cons.IH) (use Cons.prems in simp_all)
    then show ?thesis using True sw upt by (simp split: prod.splits)
  next
    case False
    let ?z' = "pre @ h # (mid @ [y]) @ ys"
    have sw: "swap_if_less i j (map fst z, map snd z) = Inr (map fst ?z', map snd ?z')"
      using swap_if_less_zip[OF Cons.prems(1,2,3)] False Cons.prems(1) by simp
    have "inner_loop i [Suc j ..< n] (map fst ?z', map snd ?z') =
       (case exchange_pass h ys of (h', r) \<Rightarrow>
        Inr (map fst (pre @ h' # (mid @ [y]) @ r), map snd (pre @ h' # (mid @ [y]) @ r)))"
      by (rule Cons.IH) (use Cons.prems in simp_all)
    then show ?thesis using False sw upt by (simp split: prod.splits)
  qed
qed

lemma outer_loop_sort:
  assumes "i = length pre" "n = length (pre @ suf)"
  shows "outer_loop [i ..< n] (map fst (pre @ suf), map snd (pre @ suf)) =
     Inr (map fst (pre @ exchange_sort suf), map snd (pre @ exchange_sort suf))"
  using assms
proof (induction suf arbitrary: pre i rule: exchange_sort.induct)
  case 1
  then show ?case by simp
next
  case (2 x xs)
  obtain h r where hr: "exchange_pass x xs = (h, r)" by (cases "exchange_pass x xs")
  have len: "length r = length xs" using hr by (rule length_exchange_pass)
  have "i < n" using "2.prems" by simp
  then have upt: "[i ..< n] = i # [Suc i ..< n]" by (rule upt_conv_Cons)
  have inner: "inner_loop i [Suc i ..< n] (map fst (pre @ x # xs), map snd (pre @ x # xs)) =
     Inr (map fst (pre @ h # r), map snd (pre @ h # r))"
    using inner_loop_pass[of "pre @ x # xs" pre x "[]" xs i "Suc i" n] hr "2.prems" by simp
  have "outer_loop [Suc i ..< n] (map fst ((pre @ [h]) @ r), map snd ((pre @ [h]) @ r)) =
     Inr (map fst ((pre @ [h]) @ exchange_sort r), map snd ((pre @ [h]) @ exchange_sort r))"
    using "2.IH"[of "Suc i" "pre @ [h]"] hr "2.prems" len by simp
  then show ?case using upt inner hr "2.prems" by simp
qed

lemma sortMovesAndFrequencies_zip:
  assumes "length moves = length frequencies"
  shows "sortMovesAndFrequencies moves frequencies =
     Inr (map fst (exchange_sort (zip moves frequencies)),
          map snd (exchange_sort (zip moves frequencies)))"
  using outer_loop_sort[of 0 "[]" "length frequencies" "zip moves frequencies"] assms
  by (simp add: sortMovesAndFrequencies_def)


lemma mset_exchange_pass:
  "exchange_pass h xs = (h', r) \<Longrightarrow> mset (h' # r) = mset (h # xs)"
proof (induction xs arbitrary: h h' r)
  case Nil
  then show ?case by simp
next
  case (Cons y ys)
  show ?case
  proof (cases "snd h < snd y")
    case True
    obtain a b where ab: "exchange_pass y ys = (a, b)" by (cases "exchange_pass y ys")
    from Cons.IH[OF ab] Cons.prems True ab show ?thesis by auto
  next
    case False
    obtain a b where ab: "exchange_pass h ys = (a, b)" by (cases "exchange_pass h ys")
    from Cons.IH[OF ab] Cons.prems False ab show ?thesis by auto
  qed
qed

lemma mset_exchange_sort: "mset (exchange_sort xs) = mset xs"
proof (induction xs rule: exchange_sort.induct)
  case 1
  show ?case by simp
next
  case (2 x xs)
  obtain h r where hr: "exchange_pass x xs = (h, r)" by (cases "exchange_pass x xs")
  from "2.IH" mset_exchange_pass[OF hr] hr show ?case by simp
qed

lemma set_exchange_sort: "set (exchange_sort xs) = set xs"
  by (metis mset_exchange_sort set_mset_mset)

lemma length_exchange_sort: "length (exchange_sort xs) = length xs"
  by (metis mset_exchange_sort size_mset)

lemma exchange_pass_head_ge:
  "exchange_pass h xs = (h', r) \<Longrightarrow> snd h \<le> snd h' \<and> (\<forall>x \<in> set xs. snd x \<le> snd h')"
proof (induction xs arbitrary: h h' r)
  case Nil
  then show ?case by simp
next
  case (Cons y ys)
  show ?case
  proof (cases "snd h < snd y")
    case True
    obtain a b where ab: "exchange_pass y ys = (a, b)" by (cases "exchange_pass y ys")
    from Cons.IH[OF ab] Cons.prems True ab show ?thesis by auto
  next
    case False
    obtain a b where ab: "exchange_pass h ys = (a, b)" by (cases "exchange_pass h ys")
    from Cons.IH[OF ab] Cons.prems False ab show ?thesis by auto
  qed
qed

lemma exchange_pass_rest_le:
  assumes "exchange_pass h xs = (h', r)" "x \<in> set r"
  shows "snd x \<le> snd h'"
proof -
  have "x \<in># mset (h' # r)" using assms(2) by simp
  then have "x \<in> set (h # xs)" using mset_exchange_pass[OF assms(1)]
    by (metis set_mset_mset)
  then show ?thesis using exchange_pass_head_ge[OF assms(1)] by auto
qed

lemma sorted_exchange_sort: "sorted_wrt (\<lambda>a b. snd b \<le> snd a) (exchange_sort xs)"
proof (induction xs rule: exchange_sort.induct)
  case 1
  show ?case by simp
next
  case (2 x xs)
  obtain h r where hr: "exchange_pass x xs = (h, r)" by (cases "exchange_pass x xs")
  have "\<forall>y \<in> set (exchange_sort r). snd y \<le> snd h"
    using exchange_pass_rest_le[OF hr] by (simp add: set_exchange_sort)
  with "2.IH" hr show ?case by simp
qed

lemma exchange_pass_top:
  assumes "exchange_pass h xs = (h', r)" "\<forall>x \<in> set (h # xs). snd x \<le> M"
  shows "filter (\<lambda>p. snd p = M) (h' # r) = filter (\<lambda>p. snd p = M) (h # xs)"
  using assms
proof (induction xs arbitrary: h h' r)
  case Nil
  then show ?case by simp
next
  case (Cons y ys)
  let ?P = "\<lambda>p. snd p = M"
  show ?case
  proof (cases "snd h < snd y")
    case True
    obtain a b where ab: "exchange_pass y ys = (a, b)" by (cases "exchange_pass y ys")
    have hM: "snd h \<noteq> M" using True Cons.prems(2) by auto
    have ih: "filter ?P (a # b) = filter ?P (y # ys)"
      using Cons.IH[OF ab] Cons.prems(2) by simp
    have hr: "h' = a" "r = h # b" using Cons.prems(1) True ab by simp_all
    have "filter ?P (h' # r) = filter ?P (a # b)" using hr hM by simp
    also have "\<dots> = filter ?P (y # ys)" by (rule ih)
    also have "\<dots> = filter ?P (h # y # ys)" using hM by simp
    finally show ?thesis .
  next
    case False
    obtain a b where ab: "exchange_pass h ys = (a, b)" by (cases "exchange_pass h ys")
    have ih: "filter ?P (a # b) = filter ?P (h # ys)"
      using Cons.IH[OF ab] Cons.prems(2) by simp
    have ge: "snd h \<le> snd a" using exchange_pass_head_ge[OF ab] by simp
    have "set (a # b) = set (h # ys)" using mset_exchange_pass[OF ab] by (metis set_mset_mset)
    then have "a \<in> set (h # ys)" by (metis list.set_intros(1))
    then have le: "snd a \<le> M" using Cons.prems(2) by auto
    have hr: "h' = a" "r = y # b" using Cons.prems(1) False ab by simp_all
    show ?thesis
    proof (cases "snd y = M")
      case True
      then have sh: "snd h = M" using False Cons.prems(2) by auto
      then have sa: "snd a = M" using ge le by simp
      have "a # filter ?P b = h # filter ?P ys" using ih sa sh by simp
      then have "a = h" "filter ?P b = filter ?P ys" by simp_all
      then show ?thesis using hr True sh by simp
    next
      case False
      have "filter ?P (h' # r) = filter ?P (a # b)" using hr False by simp
      also have "\<dots> = filter ?P (h # ys)" by (rule ih)
      also have "\<dots> = filter ?P (h # y # ys)" using False by simp
      finally show ?thesis .
    qed
  qed
qed

lemma exchange_sort_top:
  assumes "\<forall>x \<in> set xs. snd x \<le> M"
  shows "filter (\<lambda>p. snd p = M) (exchange_sort xs) = filter (\<lambda>p. snd p = M) xs"
  using assms
proof (induction xs rule: exchange_sort.induct)
  case 1
  show ?case by simp
next
  case (2 x xs)
  let ?P = "\<lambda>p. snd p = M"
  obtain h r where hr: "exchange_pass x xs = (h, r)" by (cases "exchange_pass x xs")
  have top: "filter ?P (h # r) = filter ?P (x # xs)"
    using exchange_pass_top[OF hr] "2.prems" by simp
  have "set (h # r) = set (x # xs)" using mset_exchange_pass[OF hr] by (metis set_mset_mset)
  then have "\<forall>y \<in> set r. snd y \<le> M" using "2.prems" by auto
  then have ih: "filter ?P (exchange_sort r) = filter ?P r"
    using "2.IH" hr by simp
  have "filter ?P (exchange_sort (x # xs)) = filter ?P (h # exchange_sort r)"
    using hr by simp
  also have "\<dots> = filter ?P (h # r)" using ih by simp
  also have "\<dots> = filter ?P (x # xs)" by (rule top)
  finally show ?case .
qed



section \<open>The counting loop builds the tally\<close>

lemma set_first_occurrences: "set (first_occurrences ks) = set ks"
  by (induction ks) auto

lemma distinct_first_occurrences: "distinct (first_occurrences ks)"
  by (induction ks) (auto simp: set_first_occurrences)

lemma first_occurrences_snoc:
  "first_occurrences (ks @ [k]) =
     (if k \<in> set ks then first_occurrences ks else first_occurrences ks @ [k])"
  by (induction ks) auto

lemma list_index_mem:
  "x \<in> set xs \<Longrightarrow> \<exists>i. list_index xs x = Inr i \<and> i < length xs \<and> xs ! i = x"
  by (induction xs) auto

lemma map_update_distinct:
  "distinct xs \<Longrightarrow> i < length xs \<Longrightarrow>
     (map f xs)[i := v] = map (\<lambda>x. if x = xs ! i then v else f x) xs"
proof (induction xs arbitrary: i)
  case Nil
  then show ?case by simp
next
  case (Cons a xs)
  show ?case
  proof (cases i)
    case 0
    have "map f xs = map (\<lambda>x. if x = a then v else f x) xs"
      using Cons.prems(1) by (intro map_cong) auto
    then show ?thesis using 0 by simp
  next
    case (Suc j)
    have "xs ! j \<noteq> a" using Cons.prems Suc by auto
    then show ?thesis using Suc Cons.IH[of j] Cons.prems by simp
  qed
qed

lemma map_fst_tally: "map fst (tally ks) = first_occurrences ks"
  by (simp add: tally_def comp_def)

lemma map_snd_tally:
  "map snd (tally ks) = map (\<lambda>k. int (count_list ks k)) (first_occurrences ks)"
  by (simp add: tally_def comp_def)

lemma count_next_move_tally:
  "count_next_move k (map fst (tally seen), map snd (tally seen)) =
     Inr (map fst (tally (seen @ [k])), map snd (tally (seen @ [k])))"
proof (cases "k \<in> set seen")
  case True
  let ?ms = "first_occurrences seen"
  let ?c = "\<lambda>x. int (count_list seen x)"
  from True have mem: "k \<in> set ?ms" by (simp add: set_first_occurrences)
  from list_index_mem[OF this]
  obtain i where i: "list_index ?ms k = Inr i" "i < length ?ms" "?ms ! i = k"
    by (elim exE conjE)
  have "(map ?c ?ms)[i := map ?c ?ms ! i + 1] =
      map (\<lambda>x. if x = ?ms ! i then ?c k + 1 else ?c x) ?ms"
    using map_update_distinct[OF distinct_first_occurrences i(2), of ?c "?c k + 1"] i(2,3)
    by simp
  also have "\<dots> = map (\<lambda>x. int (count_list (seen @ [k]) x)) ?ms"
    using i(3) by (intro map_cong) auto
  finally show ?thesis
    using True i(1,2) mem
    by (simp add: count_next_move_def map_fst_tally map_snd_tally first_occurrences_snoc)
next
  case False
  then have "map (\<lambda>x. int (count_list (seen @ [k]) x)) (first_occurrences seen) =
     map (\<lambda>x. int (count_list seen x)) (first_occurrences seen)"
    by (intro map_cong) (auto simp: set_first_occurrences)
  then show ?thesis using False
    by (simp add: count_next_move_def map_fst_tally map_snd_tally first_occurrences_snoc
        set_first_occurrences)
qed

lemma count_loop_tally:
  "count_loop self FEN white gs (map fst (tally seen), map snd (tally seen)) =
     Inr (map fst (tally (seen @ map (\<lambda>game. getNextMove game FEN)
            (filter (\<lambda>game. (white_player game = username self) = white) gs))),
          map snd (tally (seen @ map (\<lambda>game. getNextMove game FEN)
            (filter (\<lambda>game. (white_player game = username self) = white) gs))))"
proof (induction gs arbitrary: seen)
  case Nil
  show ?case by simp
next
  case (Cons g gs)
  show ?case using Cons.IH[of "seen @ [getNextMove g FEN]"] Cons.IH[of seen]
    by (simp add: count_next_move_tally)
qed

lemma count_loop_next_moves:
  "count_loop self FEN white (findGamesWithFEN self FEN) ([], []) =
     Inr (map fst (tally (next_moves self FEN white)),
          map snd (tally (next_moves self FEN white)))"
  using count_loop_tally[of self FEN white "findGamesWithFEN self FEN" "[]"]
  by (simp add: tally_def findGamesWithFEN_def append_matching_filter next_moves_def)

lemma findMovesAfterFEN_tally:
  "findMovesAfterFEN self FEN white =
     Inr (map fst (exchange_sort (tally (next_moves self FEN white))),
          map snd (exchange_sort (tally (next_moves self FEN white))))"
  using sortMovesAndFrequencies_zip[of "map fst (tally (next_moves self FEN white))"
      "map snd (tally (next_moves self FEN white))"]
  by (simp add: findMovesAfterFEN_def count_loop_next_moves zip_map_fst_snd)

lemma count_list_map_filter:
  "count_list (map f xs) y = length (filter (\<lambda>x. f x = y) xs)"
  by (induction xs) simp_all

lemma count_next_moves:
  "count_list (next_moves self FEN white) m =
     length (filter (\<lambda>game. containsFEN game FEN
                \<and> ((white_player game = username self) = white)
                \<and> getNextMove game FEN = m) (games self))"
  by (simp add: next_moves_def count_list_map_filter conj_assoc)

lemma set_next_moves:
  "m \<in> set (next_moves self FEN white) \<longleftrightarrow>
     (\<exists>game \<in> set (games self). containsFEN game FEN
         \<and> ((white_player game = username self) = white) \<and> getNextMove game FEN = m)"
  by (auto simp: next_moves_def)

lemma set_sorted_tally:
  "set (exchange_sort (tally ks)) = (\<lambda>k. (k, int (count_list ks k))) ` set ks"
  by (simp add: set_exchange_sort tally_def set_first_occurrences)

lemma distinct_sorted_tally: "distinct (map fst (exchange_sort (tally ks)))"
proof -
  have "mset (map fst (exchange_sort (tally ks))) = mset (map fst (tally ks))"
    by (metis mset_exchange_sort mset_map)
  then have "distinct (map fst (exchange_sort (tally ks))) = distinct (map fst (tally ks))"
    by (rule mset_eq_imp_distinct_iff)
  then show ?thesis by (simp add: map_fst_tally distinct_first_occurrences)
qed

lemma sorted_tally_entry:
  assumes "i < length (exchange_sort (tally ks))"
  shows "snd (exchange_sort (tally ks) ! i) = int (count_list ks (fst (exchange_sort (tally ks) ! i)))"
proof -
  have "exchange_sort (tally ks) ! i \<in> set (exchange_sort (tally ks))"
    using assms by (rule nth_mem)
  then show ?thesis unfolding set_sorted_tally by auto
qed

section \<open>Filtering by time control: the claims\<close>

lemma games_filterGameType:
  "games (filterGameType self type) =
     (if CHR ''0'' \<in> set type then
        filter (\<lambda>game. time_control game = type) (all_games self)
      else if lower type = ''all'' then all_games self
      else if lower type = ''rapid'' then
        filter (\<lambda>game. time_control game \<in> {''600'', ''900+10'', ''1800''}) (all_games self)
      else if lower type = ''bullet'' then
        filter (\<lambda>game. time_control game \<in> {''60'', ''60+1'', ''120+0''}) (all_games self)
      else if lower type = ''blitz'' then
        filter (\<lambda>game. time_control game \<in> {''180'', ''180+2'', ''300''}) (all_games self)
      else if lower type = ''daily'' then
        filter (\<lambda>game. time_control game \<in> {''86400''}) (all_games self)
      else [])"
  by (simp add: filterGameType_def append_matching_filter Let_def)

lemma filterGameType_other_fields:
  "username (filterGameType self type) = username self"
  "info (filterGameType self type) = info self"
  "stats (filterGameType self type) = stats self"
  "current_games_data (filterGameType self type) = current_games_data self"
  "games_data (filterGameType self type) = games_data self"
  "all_games (filterGameType self type) = all_games self"
  "current_games (filterGameType self type) = current_games self"
  by (simp_all add: filterGameType_def Let_def)

lemma filterGameType_update:
  "filterGameType self type = self\<lparr>games := games (filterGameType self type)\<rparr>"
  by (simp add: filterGameType_def Let_def)

lemma foldl_filterGameType_fields:
  "all_games (foldl filterGameType self types) = all_games self"
  "current_games (foldl filterGameType self types) = current_games self"
  by (induction types arbitrary: self) (simp_all add: filterGameType_other_fields)

lemma Profile_init_lists:
  assumes "Profile_init mk uname profile_data stats_data cur_data arch_data = Inr p"
  shows "current_games p = []" "games p = all_games p"
  using assms by (auto simp: Profile_init_def split: sum.splits)

text \<open>
  C6. A literal time-control token selects exactly the archived games whose
  \<open>time_control\<close> equals the selector; the comment on the literal branch of the source
  reads ``if the type was given as a number in seconds''. The source recognises such a
  token by the test \<open>"0" in type\<close>. The selector \<open>600\<close> passes the test and selects the
  game played at 600; the selector \<open>45\<close> has no digit 0, is compared with the names of
  the symbolic classes instead, and leaves the active list empty although the archived
  list holds a game whose \<open>time_control\<close> is \<open>45\<close>.
\<close>

theorem filterGameType_literal_without_zero:
  "all_games (example_profile [game_Nf3, game_c4]) = [game_Nf3, game_c4]
   \<and> time_control game_Nf3 = ''600'' \<and> time_control game_c4 = ''45''
   \<and> games (filterGameType (example_profile [game_Nf3, game_c4]) ''600'') = [game_Nf3]
   \<and> games (filterGameType (example_profile [game_Nf3, game_c4]) ''45'') = []"
  by code_simp

text \<open>
  C7. A selector that is not the time control of any archived game and that, in lower
  case, is none of \<open>all\<close>, \<open>rapid\<close>, \<open>bullet\<close>, \<open>blitz\<close>, \<open>daily\<close> (the comparison of
  the source is made after \<open>type.lower()\<close>) leaves the active list empty;
  \<open>filterGameType\<close> has no failing branch, so no error is raised.
\<close>

theorem filterGameType_no_match:
  assumes "type \<notin> set (map time_control (all_games self))"
    and "lower type \<notin> {''all'', ''rapid'', ''bullet'', ''blitz'', ''daily''}"
  shows "games (filterGameType self type) = []"
  using assms by (auto simp: games_filterGameType filter_empty_conv)

theorem filterGameType_no_match_witness:
  "''classical'' \<notin> set (map time_control (all_games (example_profile [game_Nf3, game_e4])))
   \<and> lower ''classical'' \<notin> {''all'', ''rapid'', ''bullet'', ''blitz'', ''daily''}
   \<and> games (filterGameType (example_profile [game_Nf3, game_e4]) ''classical'') = []"
proof -
  have h1: "''classical'' \<notin> set (map time_control (all_games (example_profile [game_Nf3, game_e4])))"
    by (simp add: example_defs)
  have h2: "lower ''classical'' \<notin> {''all'', ''rapid'', ''bullet'', ''blitz'', ''daily''}"
    by code_simp
  show ?thesis using filterGameType_no_match[OF h1 h2] h1 h2 by simp
qed

text \<open>
  C8. For a profile built by the constructor and filtered any number of times, after one
  more call of \<open>filterGameType\<close>, with any selector, every game of the active list is a game
  of the archived list, and no game of the list of current games is in the active list
  (the constructor leaves \<open>current_games\<close> empty and no call changes it).
\<close>

theorem filterGameType_subset:
  assumes "Profile_init mk uname profile_data stats_data cur_data arch_data = Inr p"
  shows "set (games (filterGameType (foldl filterGameType p types) type))
           \<subseteq> set (all_games (filterGameType (foldl filterGameType p types) type))
       \<and> set (current_games (filterGameType (foldl filterGameType p types) type))
           \<inter> set (games (filterGameType (foldl filterGameType p types) type)) = {}"
proof -
  have "current_games (filterGameType (foldl filterGameType p types) type) = []"
    using Profile_init_lists(1)[OF assms]
    by (simp add: filterGameType_other_fields foldl_filterGameType_fields)
  moreover have "set (games (filterGameType (foldl filterGameType p types) type))
      \<subseteq> set (all_games (filterGameType (foldl filterGameType p types) type))"
    by (auto simp: games_filterGameType filterGameType_other_fields)
  ultimately show ?thesis by simp
qed

theorem filterGameType_subset_witness:
  "Profile_init (\<lambda>pgn. Inr game_Nf3) ''aronfrish'' JNull JNull []
       [JObj [(''pgn'', JStr ''1. Nf3 *'')]]
     = Inr ((example_profile [game_Nf3])\<lparr>games_data := [JObj [(''pgn'', JStr ''1. Nf3 *'')]]\<rparr>)
   \<and> games (filterGameType (foldl filterGameType
        ((example_profile [game_Nf3])\<lparr>games_data := [JObj [(''pgn'', JStr ''1. Nf3 *'')]]\<rparr>)
        [''bullet'']) ''rapid'') = [game_Nf3]
   \<and> set (games (filterGameType (foldl filterGameType
        ((example_profile [game_Nf3])\<lparr>games_data := [JObj [(''pgn'', JStr ''1. Nf3 *'')]]\<rparr>)
        [''bullet'']) ''rapid''))
       \<subseteq> set (all_games (filterGameType (foldl filterGameType
        ((example_profile [game_Nf3])\<lparr>games_data := [JObj [(''pgn'', JStr ''1. Nf3 *'')]]\<rparr>)
        [''bullet'']) ''rapid''))
   \<and> set (current_games (filterGameType (foldl filterGameType
        ((example_profile [game_Nf3])\<lparr>games_data := [JObj [(''pgn'', JStr ''1. Nf3 *'')]]\<rparr>)
        [''bullet'']) ''rapid''))
       \<inter> set (games (filterGameType (foldl filterGameType
        ((example_profile [game_Nf3])\<lparr>games_data := [JObj [(''pgn'', JStr ''1. Nf3 *'')]]\<rparr>)
        [''bullet'']) ''rapid'')) = {}"
proof -
  have h: "Profile_init (\<lambda>pgn. Inr game_Nf3) ''aronfrish'' JNull JNull []
       [JObj [(''pgn'', JStr ''1. Nf3 *'')]]
     = Inr ((example_profile [game_Nf3])\<lparr>games_data := [JObj [(''pgn'', JStr ''1. Nf3 *'')]]\<rparr>)"
    by (simp add: Profile_init_def example_profile_def)
  have l: "lower ''rapid'' = ''rapid''" by code_simp
  have g: "games (filterGameType (foldl filterGameType
        ((example_profile [game_Nf3])\<lparr>games_data := [JObj [(''pgn'', JStr ''1. Nf3 *'')]]\<rparr>)
        [''bullet'']) ''rapid'') = [game_Nf3]"
    using l by (simp add: games_filterGameType filterGameType_other_fields)
      (simp add: example_defs)
  show ?thesis
    using filterGameType_subset[OF h, of "[''bullet'']" "''rapid''"] h g by simp
qed

text \<open>
  C10. \<open>filterGameType\<close> assigns only the field \<open>games\<close>: every other field of the
  profile is unchanged, so a later call gives the result that it gives on the unfiltered
  profile.
\<close>

theorem filterGameType_frame:
  "username (filterGameType self type) = username self
   \<and> info (filterGameType self type) = info self
   \<and> stats (filterGameType self type) = stats self
   \<and> current_games_data (filterGameType self type) = current_games_data self
   \<and> games_data (filterGameType self type) = games_data self
   \<and> all_games (filterGameType self type) = all_games self
   \<and> current_games (filterGameType self type) = current_games self
   \<and> filterGameType (filterGameType self type) type' = filterGameType self type'"
proof -
  obtain Y where Y: "filterGameType self type' = self\<lparr>games := Y\<rparr>"
    by (rule that[OF filterGameType_update])
  obtain X where X: "filterGameType self type = self\<lparr>games := X\<rparr>"
    by (rule that[OF filterGameType_update])
  obtain Z where Z: "filterGameType (filterGameType self type) type'
      = (filterGameType self type)\<lparr>games := Z\<rparr>"
    by (rule that[OF filterGameType_update])
  have "games (filterGameType (filterGameType self type) type')
      = games (filterGameType self type')"
    by (simp only: games_filterGameType filterGameType_other_fields)
  then have "Z = Y" using arg_cong[OF Z, of games] arg_cong[OF Y, of games] by simp
  then have "filterGameType (filterGameType self type) type' = filterGameType self type'"
    using X Y Z by simp
  then show ?thesis by (simp only: filterGameType_other_fields simp_thms)
qed

section \<open>Move frequencies: the claims\<close>

lemma hd_exchange_sort_max:
  assumes "xs \<noteq> []"
  shows "hd (exchange_sort xs) \<in> set xs \<and> (\<forall>x \<in> set xs. snd x \<le> snd (hd (exchange_sort xs)))"
proof -
  obtain y ys where xs: "xs = y # ys" using assms by (cases xs) auto
  obtain h r where hr: "exchange_pass y ys = (h, r)" by (cases "exchange_pass y ys")
  have "set (h # r) = set (y # ys)" using mset_exchange_pass[OF hr] by (metis set_mset_mset)
  then have "h \<in> set xs" using xs by (metis list.set_intros(1))
  moreover have "\<forall>x \<in> set xs. snd x \<le> snd h"
    using exchange_pass_head_ge[OF hr] xs by auto
  ultimately show ?thesis using xs hr by simp
qed

lemma mostCommonMove_tally:
  "mostCommonMove self FEN white =
     (case exchange_sort (tally (next_moves self FEN white)) of
        [] \<Rightarrow> Inl IndexError
      | p # _ \<Rightarrow> Inr (fst p))"
  by (simp add: mostCommonMove_def findMovesAfterFEN_tally split: list.splits)

text \<open>
  C2. The call \<open>findMovesAfterFEN\<close> returns a list of distinct moves and a list of counts
  of the same length; a move is listed iff some game of the active list contains the
  position, has the player in the selected colour and continues with that move; and the
  count at the index of a move is the number of those games. In particular, when the
  qualifying games continue with g1f3, g1f3 and d2d4, the table is g1f3: 2, d2d4: 1 and
  \<open>mostCommonMove\<close> returns g1f3.
\<close>

theorem findMovesAfterFEN_counts:
  "(\<exists>moves frequencies.
      findMovesAfterFEN self FEN white = Inr (moves, frequencies)
      \<and> length frequencies = length moves \<and> distinct moves
      \<and> (\<forall>m. m \<in> set moves \<longleftrightarrow>
            (\<exists>game \<in> set (games self). containsFEN game FEN
               \<and> ((white_player game = username self) = white)
               \<and> getNextMove game FEN = m))
      \<and> (\<forall>i < length moves.
            frequencies ! i =
              int (length (filter (\<lambda>game. containsFEN game FEN
                     \<and> ((white_player game = username self) = white)
                     \<and> getNextMove game FEN = moves ! i) (games self)))))
   \<and> (next_moves self FEN white =
         [Some (from_uci ''g1f3''), Some (from_uci ''g1f3''), Some (from_uci ''d2d4'')]
       \<longrightarrow> findMovesAfterFEN self FEN white =
             Inr ([Some (from_uci ''g1f3''), Some (from_uci ''d2d4'')], [2, 1])
           \<and> mostCommonMove self FEN white = Inr (Some (from_uci ''g1f3'')))"
proof (intro conjI impI)
  let ?ks = "next_moves self FEN white"
  let ?z = "exchange_sort (tally ?ks)"
  have res: "findMovesAfterFEN self FEN white = Inr (map fst ?z, map snd ?z)"
    by (rule findMovesAfterFEN_tally)
  have mem: "\<forall>m. m \<in> set (map fst ?z) \<longleftrightarrow>
            (\<exists>game \<in> set (games self). containsFEN game FEN
               \<and> ((white_player game = username self) = white)
               \<and> getNextMove game FEN = m)"
  proof
    fix m
    have "m \<in> set (map fst ?z) \<longleftrightarrow> m \<in> set ?ks"
      by (auto simp: set_sorted_tally image_iff)
    then show "m \<in> set (map fst ?z) \<longleftrightarrow>
            (\<exists>game \<in> set (games self). containsFEN game FEN
               \<and> ((white_player game = username self) = white)
               \<and> getNextMove game FEN = m)"
      by (simp only: set_next_moves)
  qed
  have cnt: "\<forall>i < length (map fst ?z).
            map snd ?z ! i =
              int (length (filter (\<lambda>game. containsFEN game FEN
                     \<and> ((white_player game = username self) = white)
                     \<and> getNextMove game FEN = map fst ?z ! i) (games self)))"
    using sorted_tally_entry[of _ ?ks] by (simp add: count_next_moves)
  show "\<exists>moves frequencies.
      findMovesAfterFEN self FEN white = Inr (moves, frequencies)
      \<and> length frequencies = length moves \<and> distinct moves
      \<and> (\<forall>m. m \<in> set moves \<longleftrightarrow>
            (\<exists>game \<in> set (games self). containsFEN game FEN
               \<and> ((white_player game = username self) = white)
               \<and> getNextMove game FEN = m))
      \<and> (\<forall>i < length moves.
            frequencies ! i =
              int (length (filter (\<lambda>game. containsFEN game FEN
                     \<and> ((white_player game = username self) = white)
                     \<and> getNextMove game FEN = moves ! i) (games self))))"
    apply (rule exI[of _ "map fst ?z"])
    apply (rule exI[of _ "map snd ?z"])
    apply (intro conjI)
        apply (rule res)
       apply simp
      apply (rule distinct_sorted_tally)
     apply (rule mem)
    apply (rule cnt)
    done
next
  assume ks: "next_moves self FEN white =
         [Some (from_uci ''g1f3''), Some (from_uci ''g1f3''), Some (from_uci ''d2d4'')]"
  show "findMovesAfterFEN self FEN white =
             Inr ([Some (from_uci ''g1f3''), Some (from_uci ''d2d4'')], [2, 1])"
    by (simp add: findMovesAfterFEN_tally ks tally_def)
  show "mostCommonMove self FEN white = Inr (Some (from_uci ''g1f3''))"
    by (simp add: mostCommonMove_tally ks tally_def)
qed

theorem findMovesAfterFEN_counts_witness:
  "next_moves (example_profile [game_Nf3, game_Nf3, game_d4]) start_fen True =
         [Some (from_uci ''g1f3''), Some (from_uci ''g1f3''), Some (from_uci ''d2d4'')]
   \<and> findMovesAfterFEN (example_profile [game_Nf3, game_Nf3, game_d4]) start_fen True =
         Inr ([Some (from_uci ''g1f3''), Some (from_uci ''d2d4'')], [2, 1])
   \<and> mostCommonMove (example_profile [game_Nf3, game_Nf3, game_d4]) start_fen True =
         Inr (Some (from_uci ''g1f3''))"
proof -
  have h: "next_moves (example_profile [game_Nf3, game_Nf3, game_d4]) start_fen True =
         [Some (from_uci ''g1f3''), Some (from_uci ''g1f3''), Some (from_uci ''d2d4'')]"
    by (simp add: next_moves_def example_defs containsFEN_def getNextMove_def)
  from findMovesAfterFEN_counts[of "example_profile [game_Nf3, game_Nf3, game_d4]" start_fen True]
  have "next_moves (example_profile [game_Nf3, game_Nf3, game_d4]) start_fen True =
         [Some (from_uci ''g1f3''), Some (from_uci ''g1f3''), Some (from_uci ''d2d4'')]
       \<longrightarrow> findMovesAfterFEN (example_profile [game_Nf3, game_Nf3, game_d4]) start_fen True =
             Inr ([Some (from_uci ''g1f3''), Some (from_uci ''d2d4'')], [2, 1])
           \<and> mostCommonMove (example_profile [game_Nf3, game_Nf3, game_d4]) start_fen True
              = Inr (Some (from_uci ''g1f3''))"
    by (rule conjunct2)
  with h show ?thesis by simp
qed


text \<open>
  C5. For every pair of a move list and a frequency list of the same length,
  \<open>sortMovesAndFrequencies\<close> returns the same (move, count) pairs, each move with its own
  count, rearranged so that the counts are in descending order. \<open>findMovesAfterFEN\<close>
  returns the accumulated table sorted in this way, and on a non-empty result
  \<open>mostCommonMove\<close> returns the first move of it, whose accumulated count is the greatest
  of the table.
\<close>

theorem sorted_table_is_descending_permutation:
  "(length moves = length frequencies \<longrightarrow>
      (\<exists>moves' frequencies'.
         sortMovesAndFrequencies moves frequencies = Inr (moves', frequencies')
         \<and> length moves' = length frequencies'
         \<and> mset (zip moves' frequencies') = mset (zip moves frequencies)
         \<and> sorted_wrt (\<lambda>c c'. c' \<le> c) frequencies'))
   \<and> (\<exists>acc_moves acc_frequencies sorted_moves sorted_frequencies.
         count_loop self FEN white (findGamesWithFEN self FEN) ([], [])
           = Inr (acc_moves, acc_frequencies)
         \<and> length acc_moves = length acc_frequencies
         \<and> findMovesAfterFEN self FEN white = Inr (sorted_moves, sorted_frequencies)
         \<and> sortMovesAndFrequencies acc_moves acc_frequencies
             = Inr (sorted_moves, sorted_frequencies)
         \<and> (sorted_moves \<noteq> [] \<longrightarrow>
              mostCommonMove self FEN white = Inr (hd sorted_moves)
              \<and> (hd sorted_moves, hd sorted_frequencies) \<in> set (zip acc_moves acc_frequencies)
              \<and> (\<forall>c \<in> set acc_frequencies. c \<le> hd sorted_frequencies)))"
proof (intro conjI impI)
  assume len: "length moves = length frequencies"
  let ?z = "exchange_sort (zip moves frequencies)"
  have "sorted_wrt (\<lambda>c c'. c' \<le> c) (map snd ?z)"
    using sorted_exchange_sort[of "zip moves frequencies"] by (simp add: sorted_wrt_map)
  then show "\<exists>moves' frequencies'.
         sortMovesAndFrequencies moves frequencies = Inr (moves', frequencies')
         \<and> length moves' = length frequencies'
         \<and> mset (zip moves' frequencies') = mset (zip moves frequencies)
         \<and> sorted_wrt (\<lambda>c c'. c' \<le> c) frequencies'"
    using sortMovesAndFrequencies_zip[OF len]
    by (simp add: zip_map_fst_snd mset_exchange_sort)
next
  let ?t = "tally (next_moves self FEN white)"
  let ?z = "exchange_sort ?t"
  have acc: "count_loop self FEN white (findGamesWithFEN self FEN) ([], [])
      = Inr (map fst ?t, map snd ?t)"
    by (rule count_loop_next_moves)
  have srt: "sortMovesAndFrequencies (map fst ?t) (map snd ?t) = Inr (map fst ?z, map snd ?z)"
    using sortMovesAndFrequencies_zip[of "map fst ?t" "map snd ?t"]
    by (simp add: zip_map_fst_snd)
  have top: "map fst ?z \<noteq> [] \<longrightarrow>
       mostCommonMove self FEN white = Inr (hd (map fst ?z))
       \<and> (hd (map fst ?z), hd (map snd ?z)) \<in> set (zip (map fst ?t) (map snd ?t))
       \<and> (\<forall>c \<in> set (map snd ?t). c \<le> hd (map snd ?z))"
  proof
    assume "map fst ?z \<noteq> []"
    then have ne: "?z \<noteq> []" by simp
    then have tne: "?t \<noteq> []" by (metis length_exchange_sort length_0_conv)
    from ne have "mostCommonMove self FEN white = Inr (hd (map fst ?z))"
      by (cases ?z) (simp_all add: mostCommonMove_tally)
    moreover have "(hd (map fst ?z), hd (map snd ?z)) \<in> set (zip (map fst ?t) (map snd ?t))"
      using hd_exchange_sort_max[OF tne] ne by (simp add: zip_map_fst_snd hd_map)
    moreover have "\<forall>c \<in> set (map snd ?t). c \<le> hd (map snd ?z)"
      using hd_exchange_sort_max[OF tne] ne by (simp add: hd_map)
    ultimately show "mostCommonMove self FEN white = Inr (hd (map fst ?z))
       \<and> (hd (map fst ?z), hd (map snd ?z)) \<in> set (zip (map fst ?t) (map snd ?t))
       \<and> (\<forall>c \<in> set (map snd ?t). c \<le> hd (map snd ?z))"
      by simp
  qed
  show "\<exists>acc_moves acc_frequencies sorted_moves sorted_frequencies.
         count_loop self FEN white (findGamesWithFEN self FEN) ([], [])
           = Inr (acc_moves, acc_frequencies)
         \<and> length acc_moves = length acc_frequencies
         \<and> findMovesAfterFEN self FEN white = Inr (sorted_moves, sorted_frequencies)
         \<and> sortMovesAndFrequencies acc_moves acc_frequencies
             = Inr (sorted_moves, sorted_frequencies)
         \<and> (sorted_moves \<noteq> [] \<longrightarrow>
              mostCommonMove self FEN white = Inr (hd sorted_moves)
              \<and> (hd sorted_moves, hd sorted_frequencies) \<in> set (zip acc_moves acc_frequencies)
              \<and> (\<forall>c \<in> set acc_frequencies. c \<le> hd sorted_frequencies))"
    apply (rule exI[of _ "map fst ?t"])
    apply (rule exI[of _ "map snd ?t"])
    apply (rule exI[of _ "map fst ?z"])
    apply (rule exI[of _ "map snd ?z"])
    apply (intro conjI)
        apply (rule acc)
       apply simp
      apply (rule findMovesAfterFEN_tally)
     apply (rule srt)
    apply (rule top)
    done
qed

theorem sorted_table_is_descending_permutation_witness:
  "sortMovesAndFrequencies
       [from_uci ''g1f3'', from_uci ''d2d4'', from_uci ''d1h5''] [158, 26, 27]
     = Inr ([from_uci ''g1f3'', from_uci ''d1h5'', from_uci ''d2d4''], [158, 27, 26])
   \<and> findMovesAfterFEN (example_profile [game_e4, game_d4, game_Nf3, game_Nf3]) start_fen True
     = Inr ([Some (from_uci ''g1f3''), Some (from_uci ''d2d4''), Some (from_uci ''e2e4'')],
            [2, 1, 1])
   \<and> mostCommonMove (example_profile [game_e4, game_d4, game_Nf3, game_Nf3]) start_fen True
     = Inr (Some (from_uci ''g1f3''))"
proof -
  have s: "sortMovesAndFrequencies
       [from_uci ''g1f3'', from_uci ''d2d4'', from_uci ''d1h5''] [158, 26, 27]
     = Inr ([from_uci ''g1f3'', from_uci ''d1h5'', from_uci ''d2d4''], [158, 27, 26])"
    by code_simp
  have f: "findMovesAfterFEN (example_profile [game_e4, game_d4, game_Nf3, game_Nf3])
       start_fen True
     = Inr ([Some (from_uci ''g1f3''), Some (from_uci ''d2d4''), Some (from_uci ''e2e4'')],
            [2, 1, 1])"
    by code_simp
  from sorted_table_is_descending_permutation
    [of "[from_uci ''g1f3'', from_uci ''d2d4'', from_uci ''d1h5'']" "[158, 26, 27]"
      "example_profile [game_e4, game_d4, game_Nf3, game_Nf3]" start_fen True]
  obtain am af sm sf where
    "findMovesAfterFEN (example_profile [game_e4, game_d4, game_Nf3, game_Nf3]) start_fen True
       = Inr (sm, sf)"
    "sm \<noteq> [] \<longrightarrow>
       mostCommonMove (example_profile [game_e4, game_d4, game_Nf3, game_Nf3]) start_fen True
         = Inr (hd sm)
       \<and> (hd sm, hd sf) \<in> set (zip am af) \<and> (\<forall>c \<in> set af. c \<le> hd sf)"
    by blast
  with f have "mostCommonMove (example_profile [game_e4, game_d4, game_Nf3, game_Nf3])
      start_fen True = Inr (Some (from_uci ''g1f3''))"
    by simp
  with s f show ?thesis by simp
qed


lemma moveTable_loop_rows:
  assumes "length frequencies = length moves" "n = length moves" "k \<le> n"
  shows "moveTable_loop [k ..< n] moves frequencies s =
     Inr (s @ concat (map (\<lambda>(m, c). str_move m @ '': '' @ str_int c @ ''\<newline>'')
                       (drop k (zip moves frequencies))))"
  using assms
proof (induction "n - k" arbitrary: k s)
  case 0
  then show ?case by simp
next
  case (Suc d)
  then have kn: "k < n" by simp
  then have upt: "[k ..< n] = k # [Suc k ..< n]" by (rule upt_conv_Cons)
  have dr: "drop k (zip moves frequencies) =
      (moves ! k, frequencies ! k) # drop (Suc k) (zip moves frequencies)"
    using kn Suc.prems by (simp add: Cons_nth_drop_Suc[symmetric])
  have "moveTable_loop [Suc k ..< n] moves frequencies
          (s @ (str_move (moves ! k) @ '': '' @ str_int (frequencies ! k)) @ ''\<newline>'') =
     Inr ((s @ (str_move (moves ! k) @ '': '' @ str_int (frequencies ! k)) @ ''\<newline>'')
          @ concat (map (\<lambda>(m, c). str_move m @ '': '' @ str_int c @ ''\<newline>'')
                       (drop (Suc k) (zip moves frequencies))))"
    by (rule Suc.hyps(1)) (use Suc.hyps(2) Suc.prems kn in simp_all)
  then show ?case using upt dr kn Suc.prems by simp
qed

lemma moveTable_tally:
  "moveTable self FEN white =
     Inr (concat (map (\<lambda>(m, c). str_move m @ '': '' @ str_int c @ ''\<newline>'')
            (exchange_sort (tally (next_moves self FEN white)))))"
  using moveTable_loop_rows[of "map snd (exchange_sort (tally (next_moves self FEN white)))"
      "map fst (exchange_sort (tally (next_moves self FEN white)))" _ 0 "[]"]
  by (simp add: moveTable_def findMovesAfterFEN_tally zip_map_fst_snd)

lemma next_moves_empty:
  assumes "\<forall>game \<in> set (games self).
     \<not> (containsFEN game FEN \<and> ((white_player game = username self) = white))"
  shows "next_moves self FEN white = []"
  using assms by (simp add: next_moves_def filter_empty_conv)

text \<open>
  C3, as the code has it. When no game of the active list matches both the position and
  the colour, \<open>findMovesAfterFEN\<close> returns two empty lists and \<open>moveTable\<close> returns the
  empty string, neither raising; \<open>mostCommonMove\<close> takes element 0 of the empty move
  list, which raises \<open>IndexError\<close>.
\<close>

theorem no_match_results:
  assumes "\<forall>game \<in> set (games self).
     \<not> (containsFEN game FEN \<and> ((white_player game = username self) = white))"
  shows "findMovesAfterFEN self FEN white = Inr ([], [])
       \<and> moveTable self FEN white = Inr []
       \<and> mostCommonMove self FEN white = Inl IndexError"
  using next_moves_empty[OF assms]
  by (simp add: findMovesAfterFEN_tally moveTable_tally mostCommonMove_tally tally_def)

theorem no_match_results_witness:
  "\<not> containsFEN game_Nf3 ''8/8/8/8/8/8/8/8 w - - 0 1''
   \<and> games (example_profile [game_Nf3]) = [game_Nf3]
   \<and> findMovesAfterFEN (example_profile [game_Nf3]) ''8/8/8/8/8/8/8/8 w - - 0 1'' True
       = Inr ([], [])
   \<and> moveTable (example_profile [game_Nf3]) ''8/8/8/8/8/8/8/8 w - - 0 1'' True = Inr []
   \<and> mostCommonMove (example_profile [game_Nf3]) ''8/8/8/8/8/8/8/8 w - - 0 1'' True
       = Inl IndexError"
proof -
  have c: "\<not> containsFEN game_Nf3 ''8/8/8/8/8/8/8/8 w - - 0 1''"
    by (simp add: containsFEN_def example_defs)
  have g: "games (example_profile [game_Nf3]) = [game_Nf3]"
    by (simp add: example_profile_def)
  have h: "\<forall>game \<in> set (games (example_profile [game_Nf3])).
     \<not> (containsFEN game ''8/8/8/8/8/8/8/8 w - - 0 1''
        \<and> ((white_player game = username (example_profile [game_Nf3])) = True))"
    using c g by simp
  show ?thesis using no_match_results[OF h] c g by simp
qed

text \<open>
  C3, as the claim states it, fails for \<open>mostCommonMove\<close>: on a corpus in which no game
  reaches the target position it raises \<open>IndexError\<close>.
\<close>

theorem mostCommonMove_no_match_counterexample:
  "mostCommonMove (example_profile [game_Nf3]) ''8/8/8/8/8/8/8/8 w - - 0 1'' True
     = Inl IndexError"
  by code_simp


section \<open>The printable table and the order of ties: the claims\<close>

lemma first_occurrences_replicate:
  "first_occurrences (replicate n k @ ks) =
     (if n = 0 then first_occurrences ks
      else k # filter (\<lambda>x. x \<noteq> k) (first_occurrences ks))"
  by (induction n) simp_all

lemma count_list_replicate:
  "count_list (replicate n k) x = (if x = k then n else 0)"
  by (induction n) auto

lemma example_table_tally:
  "tally (replicate 158 (Some (from_uci ''g1f3'')) @ replicate 26 (Some (from_uci ''d2d4''))
            @ replicate 27 (Some (from_uci ''d1h5'')))
   = [(Some (from_uci ''g1f3''), 158), (Some (from_uci ''d2d4''), 26),
      (Some (from_uci ''d1h5''), 27)]"
  using first_occurrences_replicate[of 27 "Some (from_uci ''d1h5'')" "[]"]
  by (simp add: tally_def first_occurrences_replicate count_list_replicate)

lemma example_table_next_moves:
  "next_moves (example_profile (replicate 158 open_game_Nf3 @ replicate 26 open_game_d4
        @ replicate 27 open_game_Qh5)) fen_e4_e5 True
   = replicate 158 (Some (from_uci ''g1f3'')) @ replicate 26 (Some (from_uci ''d2d4''))
            @ replicate 27 (Some (from_uci ''d1h5''))"
proof -
  have "containsFEN open_game_Nf3 fen_e4_e5" "containsFEN open_game_d4 fen_e4_e5"
    "containsFEN open_game_Qh5 fen_e4_e5"
    by (simp_all add: containsFEN_def open_game_Nf3_def open_game_d4_def open_game_Qh5_def
        open_game_def)
  moreover have "getNextMove open_game_Nf3 fen_e4_e5 = Some (from_uci ''g1f3'')"
    "getNextMove open_game_d4 fen_e4_e5 = Some (from_uci ''d2d4'')"
    "getNextMove open_game_Qh5 fen_e4_e5 = Some (from_uci ''d1h5'')"
    by code_simp+
  moreover have "white_player open_game_Nf3 = ''aronfrish''"
    "white_player open_game_d4 = ''aronfrish''" "white_player open_game_Qh5 = ''aronfrish''"
    by (simp_all add: open_game_Nf3_def open_game_d4_def open_game_Qh5_def open_game_def)
  ultimately show ?thesis
    by (simp add: next_moves_def example_profile_def filter_replicate)
qed

lemma example_table_findMovesAfterFEN:
  "findMovesAfterFEN
     (example_profile (replicate 158 open_game_Nf3 @ replicate 26 open_game_d4
        @ replicate 27 open_game_Qh5)) fen_e4_e5 True
   = Inr ([Some (from_uci ''g1f3''), Some (from_uci ''d1h5''), Some (from_uci ''d2d4'')],
          [158, 27, 26])"
  by (simp add: findMovesAfterFEN_tally example_table_next_moves example_table_tally)

text \<open>
  C9. The string returned by \<open>moveTable\<close> is the concatenation, in the order of the
  sorted table of \<open>findMovesAfterFEN\<close> (distinct moves, descending counts), of one line
  per entry: \<open>str\<close> of the move, a colon and a space, the count in decimal, and a newline.
  For the table g1f3: 158, d1h5: 27, d2d4: 26 it is the three lines of the docstring.
\<close>

theorem moveTable_lines:
  "(\<exists>moves frequencies.
      findMovesAfterFEN self FEN white = Inr (moves, frequencies)
      \<and> distinct moves \<and> length frequencies = length moves
      \<and> sorted_wrt (\<lambda>c c'. c' \<le> c) frequencies
      \<and> moveTable self FEN white =
          Inr (concat (map (\<lambda>(m, c). str_move m @ '': '' @ str_int c @ ''\<newline>'')
                 (zip moves frequencies))))
   \<and> (findMovesAfterFEN self FEN white =
         Inr ([Some (from_uci ''g1f3''), Some (from_uci ''d1h5''), Some (from_uci ''d2d4'')],
              [158, 27, 26])
       \<longrightarrow> moveTable self FEN white =
             Inr ''g1f3: 158\<newline>d1h5: 27\<newline>d2d4: 26\<newline>'')"
proof (intro conjI impI)
  let ?z = "exchange_sort (tally (next_moves self FEN white))"
  have "sorted_wrt (\<lambda>c c'. c' \<le> c) (map snd ?z)"
    using sorted_exchange_sort[of "tally (next_moves self FEN white)"]
    by (simp add: sorted_wrt_map)
  then show "\<exists>moves frequencies.
      findMovesAfterFEN self FEN white = Inr (moves, frequencies)
      \<and> distinct moves \<and> length frequencies = length moves
      \<and> sorted_wrt (\<lambda>c c'. c' \<le> c) frequencies
      \<and> moveTable self FEN white =
          Inr (concat (map (\<lambda>(m, c). str_move m @ '': '' @ str_int c @ ''\<newline>'')
                 (zip moves frequencies)))"
    apply -
    apply (rule exI[of _ "map fst ?z"])
    apply (rule exI[of _ "map snd ?z"])
    apply (intro conjI)
        apply (rule findMovesAfterFEN_tally)
       apply (rule distinct_sorted_tally)
      apply simp
     apply assumption
    apply (simp only: zip_map_fst_snd moveTable_tally)
    done
next
  assume f: "findMovesAfterFEN self FEN white =
         Inr ([Some (from_uci ''g1f3''), Some (from_uci ''d1h5''), Some (from_uci ''d2d4'')],
              [158, 27, 26])"
  have e: "moveTable_loop
      [0 ..< length [Some (from_uci ''g1f3''), Some (from_uci ''d1h5''), Some (from_uci ''d2d4'')]]
      [Some (from_uci ''g1f3''), Some (from_uci ''d1h5''), Some (from_uci ''d2d4'')]
      [158, 27, 26] [] = Inr ''g1f3: 158\<newline>d1h5: 27\<newline>d2d4: 26\<newline>''"
    by code_simp
  show "moveTable self FEN white = Inr ''g1f3: 158\<newline>d1h5: 27\<newline>d2d4: 26\<newline>''"
    unfolding moveTable_def f using e by simp
qed

theorem moveTable_lines_witness:
  "findMovesAfterFEN
     (example_profile (replicate 158 open_game_Nf3 @ replicate 26 open_game_d4
        @ replicate 27 open_game_Qh5)) fen_e4_e5 True
     = Inr ([Some (from_uci ''g1f3''), Some (from_uci ''d1h5''), Some (from_uci ''d2d4'')],
            [158, 27, 26])
   \<and> moveTable
     (example_profile (replicate 158 open_game_Nf3 @ replicate 26 open_game_d4
        @ replicate 27 open_game_Qh5)) fen_e4_e5 True
     = Inr ''g1f3: 158\<newline>d1h5: 27\<newline>d2d4: 26\<newline>''"
proof -
  from moveTable_lines[of "example_profile (replicate 158 open_game_Nf3
       @ replicate 26 open_game_d4 @ replicate 27 open_game_Qh5)" fen_e4_e5 True]
  have "findMovesAfterFEN
     (example_profile (replicate 158 open_game_Nf3 @ replicate 26 open_game_d4
        @ replicate 27 open_game_Qh5)) fen_e4_e5 True
     = Inr ([Some (from_uci ''g1f3''), Some (from_uci ''d1h5''), Some (from_uci ''d2d4'')],
            [158, 27, 26])
   \<longrightarrow> moveTable
     (example_profile (replicate 158 open_game_Nf3 @ replicate 26 open_game_d4
        @ replicate 27 open_game_Qh5)) fen_e4_e5 True
     = Inr ''g1f3: 158\<newline>d1h5: 27\<newline>d2d4: 26\<newline>''"
    by (rule conjunct2)
  with example_table_findMovesAfterFEN show ?thesis by (intro conjI) (simp_all only:)
qed


lemma filter_eq_first_occurrences:
  "filter (\<lambda>x. x = b) (first_occurrences ks) = (if b \<in> set ks then [b] else [])"
proof (induction ks)
  case Nil
  show ?case by simp
next
  case (Cons k ks)
  show ?case
  proof (cases "k = b")
    case True
    have "filter (\<lambda>x. x = b) (filter (\<lambda>x. x \<noteq> b) (first_occurrences ks)) = []"
      by (simp add: filter_empty_conv)
    then show ?thesis using True by simp
  next
    case False
    have "filter (\<lambda>x. x = b) (filter (\<lambda>x. x \<noteq> k) (first_occurrences ks))
        = filter (\<lambda>x. x = b) (first_occurrences ks)"
      using False by (simp add: filter_filter) (metis (mono_tags, lifting) filter_cong)
    then show ?thesis using False Cons.IH by auto
  qed
qed

lemma filter_pair_first_occurrences:
  assumes "a \<noteq> b" "b \<notin> set pre" "b \<in> set rest"
  shows "filter (\<lambda>m. m = a \<or> m = b) (first_occurrences (pre @ a # rest)) = [a, b]"
  using assms
proof (induction pre)
  case Nil
  have "filter (\<lambda>m. m = a \<or> m = b) (filter (\<lambda>x. x \<noteq> a) (first_occurrences rest))
      = filter (\<lambda>x. x = b) (first_occurrences rest)"
    unfolding filter_filter using Nil.prems(1) by (intro filter_cong) auto
  then show ?case using Nil.prems by (simp add: filter_eq_first_occurrences)
next
  case (Cons p pre)
  let ?ks = "pre @ a # rest"
  show ?case
  proof (cases "p = a")
    case True
    have "filter (\<lambda>m. m = a \<or> m = b) (filter (\<lambda>x. x \<noteq> a) (first_occurrences ?ks))
        = filter (\<lambda>x. x = b) (first_occurrences ?ks)"
      unfolding filter_filter using Cons.prems(1) by (intro filter_cong) auto
    then show ?thesis using True Cons.prems by (simp add: filter_eq_first_occurrences)
  next
    case False
    have pb: "p \<noteq> b" using Cons.prems(2) by auto
    have "filter (\<lambda>m. m = a \<or> m = b) (filter (\<lambda>x. x \<noteq> p) (first_occurrences ?ks))
        = filter (\<lambda>m. m = a \<or> m = b) (first_occurrences ?ks)"
      unfolding filter_filter using False pb by (intro filter_cong) auto
    moreover have "filter (\<lambda>m. m = a \<or> m = b) (first_occurrences ?ks) = [a, b]"
      using Cons.IH Cons.prems by simp
    ultimately show ?thesis using False pb by simp
  qed
qed

lemma filter_pair_indices:
  assumes "filter (\<lambda>m. m = a \<or> m = b) xs = [a, b]"
  shows "\<exists>i j. i < j \<and> j < length xs \<and> xs ! i = a \<and> xs ! j = b"
proof -
  from assms obtain us vs where
    xs: "xs = us @ a # vs" and vs: "[b] = filter (\<lambda>m. m = a \<or> m = b) vs"
    unfolding filter_eq_Cons_iff by blast
  from vs[symmetric] obtain ws ts where vs': "vs = ws @ b # ts"
    unfolding filter_eq_Cons_iff by blast
  have "xs ! length us = a" using xs by simp
  moreover have "xs ! (length us + Suc (length ws)) = b"
    using xs vs' by (simp add: nth_append)
  moreover have "length us + Suc (length ws) < length xs" using xs vs' by simp
  moreover have "length us < length us + Suc (length ws)" by simp
  ultimately show ?thesis by blast
qed

text \<open>
  C1, as the code has it. The sort exchanges entries, so it is not stable. What holds of
  ties: when two distinct moves both end with the greatest count of the table, the move
  whose first qualifying game comes earlier in the corpus is ranked before the other.
  Below the greatest count the order of two moves with equal counts is not fixed by
  their first games.
\<close>

theorem top_ties_keep_first_seen_order:
  assumes "next_moves self FEN white = pre @ a # rest" and "b \<notin> set pre" and "a \<noteq> b"
    and "count_list (next_moves self FEN white) b = count_list (next_moves self FEN white) a"
    and "\<forall>m. count_list (next_moves self FEN white) m
              \<le> count_list (next_moves self FEN white) a"
  shows "\<exists>moves frequencies i j.
     findMovesAfterFEN self FEN white = Inr (moves, frequencies)
     \<and> i < j \<and> j < length moves \<and> moves ! i = a \<and> moves ! j = b
     \<and> frequencies ! i = frequencies ! j"
proof -
  let ?ks = "next_moves self FEN white"
  let ?t = "tally ?ks"
  let ?z = "exchange_sort ?t"
  let ?M = "int (count_list ?ks a)"
  let ?P = "\<lambda>p :: Move option \<times> int. snd p = ?M"
  let ?S = "\<lambda>m. m = a \<or> m = b"
  let ?Q = "\<lambda>p :: Move option \<times> int. fst p = a \<or> fst p = b"
  have "0 < count_list ?ks a" using assms(1) by simp
  then have "b \<in> set ?ks" using assms(4) count_list_0_iff[of ?ks b] by simp
  then have brest: "b \<in> set rest" using assms(1,2,3) by auto
  have entries: "\<And>p. p \<in> set ?t \<Longrightarrow> snd p = int (count_list ?ks (fst p))"
    by (auto simp: tally_def)
  have bound: "\<forall>p \<in> set ?t. snd p \<le> ?M" using entries assms(5) by simp
  have top: "filter ?P ?z = filter ?P ?t" using bound by (rule exchange_sort_top)
  have QP: "\<And>p. p \<in> set ?t \<Longrightarrow> ?Q p \<Longrightarrow> ?P p" using entries assms(4) by auto
  have "filter ?Q ?z = filter ?Q (filter ?P ?z)"
    unfolding filter_filter using QP by (intro filter_cong) (auto simp: set_exchange_sort)
  also have "\<dots> = filter ?Q (filter ?P ?t)" by (simp only: top)
  also have "\<dots> = filter ?Q ?t"
    unfolding filter_filter using QP by (intro filter_cong) auto
  finally have "map fst (filter ?Q ?z) = map fst (filter ?Q ?t)" by simp
  then have "filter ?S (map fst ?z) = filter ?S (map fst ?t)"
    by (simp add: filter_map comp_def)
  also have "\<dots> = [a, b]"
    using filter_pair_first_occurrences[OF assms(3,2) brest] assms(1)
    by (simp add: map_fst_tally)
  finally have fl: "filter ?S (map fst ?z) = [a, b]" .
  from filter_pair_indices[OF fl]
  obtain i j where ij: "i < j" "j < length (map fst ?z)"
      "map fst ?z ! i = a" "map fst ?z ! j = b"
    by (elim exE conjE)
  have "map snd ?z ! i = int (count_list ?ks a)"
    using sorted_tally_entry[of i ?ks] ij by simp
  moreover have "map snd ?z ! j = int (count_list ?ks b)"
    using sorted_tally_entry[of j ?ks] ij by simp
  ultimately have eq: "map snd ?z ! i = map snd ?z ! j" using assms(4) by simp
  show ?thesis
    apply (rule exI[of _ "map fst ?z"])
    apply (rule exI[of _ "map snd ?z"])
    apply (rule exI[of _ i])
    apply (rule exI[of _ j])
    apply (intro conjI)
         apply (rule findMovesAfterFEN_tally)
        apply (rule ij(1))
       apply (rule ij(2))
      apply (rule ij(3))
     apply (rule ij(4))
    apply (rule eq)
    done
qed

theorem top_ties_keep_first_seen_order_witness:
  "next_moves (example_profile [game_Nf3, game_e4, game_d4, game_d4, game_e4]) start_fen True
     = [Some (from_uci ''g1f3'')] @ Some (from_uci ''e2e4'')
         # [Some (from_uci ''d2d4''), Some (from_uci ''d2d4''), Some (from_uci ''e2e4'')]
   \<and> findMovesAfterFEN (example_profile [game_Nf3, game_e4, game_d4, game_d4, game_e4])
        start_fen True
     = Inr ([Some (from_uci ''e2e4''), Some (from_uci ''d2d4''), Some (from_uci ''g1f3'')],
            [2, 2, 1])"
proof -
  let ?p = "example_profile [game_Nf3, game_e4, game_d4, game_d4, game_e4]"
  have h1: "next_moves ?p start_fen True
     = [Some (from_uci ''g1f3'')] @ Some (from_uci ''e2e4'')
         # [Some (from_uci ''d2d4''), Some (from_uci ''d2d4''), Some (from_uci ''e2e4'')]"
    by (simp add: next_moves_def example_defs containsFEN_def getNextMove_def)
  have h2: "Some (from_uci ''d2d4'') \<notin> set [Some (from_uci ''g1f3'')]" by simp
  have h3: "Some (from_uci ''e2e4'') \<noteq> Some (from_uci ''d2d4'')" by simp
  have h4: "count_list (next_moves ?p start_fen True) (Some (from_uci ''d2d4''))
      = count_list (next_moves ?p start_fen True) (Some (from_uci ''e2e4''))"
    by (simp add: h1)
  have h5: "\<forall>m. count_list (next_moves ?p start_fen True) m
      \<le> count_list (next_moves ?p start_fen True) (Some (from_uci ''e2e4''))"
    by (auto simp: h1)
  have f: "findMovesAfterFEN ?p start_fen True
     = Inr ([Some (from_uci ''e2e4''), Some (from_uci ''d2d4''), Some (from_uci ''g1f3'')],
            [2, 2, 1])"
    by code_simp
  from top_ties_keep_first_seen_order[OF h1 h2 h3 h4 h5] h1 f show ?thesis by simp
qed

text \<open>
  C1, as the claim states it, fails. The games continue with e2e4, d2d4, g1f3, g1f3 in
  corpus order: e2e4 and d2d4 both end with count 1 and the first game with e2e4 comes
  first, but d2d4 is ranked before e2e4.
\<close>

theorem tie_order_counterexample:
  "games (example_profile [game_e4, game_d4, game_Nf3, game_Nf3])
     = [game_e4, game_d4, game_Nf3, game_Nf3]
   \<and> getNextMove game_e4 start_fen = Some (from_uci ''e2e4'')
   \<and> getNextMove game_d4 start_fen = Some (from_uci ''d2d4'')
   \<and> getNextMove game_Nf3 start_fen = Some (from_uci ''g1f3'')
   \<and> findMovesAfterFEN (example_profile [game_e4, game_d4, game_Nf3, game_Nf3]) start_fen True
     = Inr ([Some (from_uci ''g1f3''), Some (from_uci ''d2d4''), Some (from_uci ''e2e4'')],
            [2, 1, 1])"
  by code_simp

end
